theory Spec2Isabelle
  imports Complex_Main "HOL-Library.Sublist" "HOL-Library.Char_ord" "HOL-Library.List_Lexorder"
begin

section \<open>Python strings\<close>

text \<open>
  The mapper works on Python \<open>str\<close> values. They are modelled as \<^typ>\<open>string\<close>, one
  \<^typ>\<open>char\<close> per character, which covers the ASCII range: every phrase of the two rule
  tables is ASCII. \<open>str.lower\<close> maps \<open>A\<close>..\<open>Z\<close> to \<open>a\<close>..\<open>z\<close> and leaves every other
  ASCII character alone.
\<close>

definition lower_char :: "char \<Rightarrow> char" where
  "lower_char c =
     (let n = (of_char c :: nat) in if 65 \<le> n \<and> n \<le> 90 then char_of (n + 32) else c)"

definition lower :: "string \<Rightarrow> string" where
  "lower s = map lower_char s"

text \<open>
  \<open>str.find(pattern)\<close>: the least index at which \<open>pattern\<close> starts, \<open>None\<close> for
  Python's \<open>-1\<close>. The empty pattern is found at index 0, also in the empty text.
\<close>

fun py_find :: "string \<Rightarrow> string \<Rightarrow> nat option" where
  "py_find [] pat = (if pat = [] then Some 0 else None)"
| "py_find (c # cs) pat =
     (if prefix pat (c # cs) then Some 0 else map_option Suc (py_find cs pat))"

text \<open>\<open>pattern in text\<close>, Python's substring test.\<close>

fun py_in :: "string \<Rightarrow> string \<Rightarrow> bool" where
  "py_in pat [] = (pat = [])"
| "py_in pat (c # cs) = (prefix pat (c # cs) \<or> py_in pat cs)"

text \<open>
  \<open>str.strip()\<close> removes leading and trailing whitespace; in ASCII, \<open>str.isspace\<close>
  holds for the codes 9 to 13, 28 to 31 and 32.
\<close>

definition isspace :: "char \<Rightarrow> bool" where
  "isspace c =
     (let n = (of_char c :: nat) in (9 \<le> n \<and> n \<le> 13) \<or> (28 \<le> n \<and> n \<le> 32))"

definition strip :: "string \<Rightarrow> string" where
  "strip s = rev (dropWhile isspace (rev (dropWhile isspace s)))"

text \<open>
  The slice \<open>text[start:end]\<close> for \<open>0 \<le> start\<close> and \<open>end \<le> len(text)\<close>; it is empty when
  \<open>end \<le> start\<close>, as in Python.
\<close>

definition slice :: "string \<Rightarrow> nat \<Rightarrow> nat \<Rightarrow> string" where
  "slice s start end' = take (end' - start) (drop start s)"

section \<open>Context snippets\<close>

text \<open>
  \<open>_extract_context(text, pattern, context_length=80)\<close>. With \<open>str\<close> arguments nothing in
  the body raises, so the \<open>except\<close> branch is not reached. \<open>max(0, pattern_pos - 40)\<close> is
  the truncating subtraction on \<^typ>\<open>nat\<close>.
\<close>

definition extract_context :: "string \<Rightarrow> string \<Rightarrow> nat \<Rightarrow> string" where
  "extract_context text' pattern context_length =
     (case py_find text' pattern of
        None \<Rightarrow> strip (take context_length text')
      | Some pattern_pos \<Rightarrow>
          (let start = pattern_pos - context_length div 2;
               end' = min (length text') (pattern_pos + length pattern + context_length div 2)
           in strip (slice text' start end')))"

section \<open>Rule tables\<close>

text \<open>
  \<open>self.ai_tool_patterns\<close>: a Python dict, iterated in insertion order, so an association
  list in that order.
\<close>

definition ai_tool_patterns :: "(string \<times> string list) list" where
  "ai_tool_patterns =
   [(''chatgpt'',
       [''chatgpt'', ''chat-gpt'', ''gpt-4'', ''gpt-3.5'', ''gpt-3'', ''openai gpt'',
        ''generated with chatgpt'', ''chatgpt helped'', ''used chatgpt'', ''chatgpt suggested'',
        ''ask chatgpt'', ''chatgpt says'', ''according to chatgpt'']),
    (''github_copilot'',
       [''github copilot'', ''copilot'', ''gh copilot'', ''copilot suggested'',
        ''copilot generated'', ''with copilot'', ''copilot helped'', ''copilot says'',
        ''copilot completion'', ''copilot auto'', ''thanks copilot'']),
    (''claude'',
       [''claude'', ''anthropic claude'', ''claude ai'', ''claude helped'', ''claude says'',
        ''generated with claude'', ''claude suggested'', ''asked claude'', ''claude thinks'',
        ''claude code'', ''claude-code'']),
    (''codex'',
       [''codex'', ''openai codex'', ''codex generated'', ''with codex'', ''codex says'',
        ''codex completion'', ''codex helped'']),
    (''cursor'',
       [''cursor ai'', ''cursor'', ''cursor suggested'', ''cursor helped'', ''with cursor'',
        ''cursor completion'', ''cursor says'']),
    (''devin'',
       [''devin'', ''devin ai'', ''devin-ai'', ''devin generated'', ''devin says'',
        ''devin helped'', ''devin suggested'']),
    (''codewhisperer'',
       [''codewhisperer'', ''code whisperer'', ''amazon codewhisperer'', ''aws codewhisperer'']),
    (''tabnine'',
       [''tabnine'', ''tab nine'', ''tabnine completion'', ''tabnine suggested'']),
    (''cody'',
       [''cody ai'', ''sourcegraph cody'', ''cody'', ''cody helped'', ''cody suggested'']),
    (''general_ai'',
       [''ai assisted'', ''ai generated'', ''ai helped'', ''ai suggestion'', ''ai tool'',
        ''artificial intelligence'', ''machine learning'', ''neural network'',
        ''large language model'', ''llm'', ''ai model'', ''ai review'', ''ai analysis''])]"

record creator_rule =
  bot_accounts :: "string list"
  branch_patterns :: "string list"
  commit_patterns :: "string list"

definition creator_patterns :: "(string \<times> creator_rule) list" where
  "creator_patterns =
   [(''devin'',
       \<lparr>bot_accounts = [''devin-ai-integration[bot]'', ''devin-ai[bot]''],
        branch_patterns = [''devin/'', ''devin-''],
        commit_patterns = [''devin:'', ''by devin'']\<rparr>),
    (''codegen'',
       \<lparr>bot_accounts = [''codegen-sh[bot]'', ''codegen[bot]''],
        branch_patterns = [''codegen/'', ''codegen-''],
        commit_patterns = [''codegen:'', ''by codegen'']\<rparr>),
    (''github_copilot'',
       \<lparr>bot_accounts = [''github-copilot[bot]''],
        branch_patterns = [''copilot/'', ''copilot-''],
        commit_patterns = [''copilot:'', ''by copilot'']\<rparr>),
    (''codex'',
       \<lparr>bot_accounts = [''openai-codex[bot]''],
        branch_patterns = [''codex/'', ''codex-''],
        commit_patterns = [''codex:'', ''by codex'']\<rparr>),
    (''cursor'',
       \<lparr>bot_accounts = [''cursor[bot]'', ''cursor-ai[bot]''],
        branch_patterns = [''cursor/'', ''cursor-''],
        commit_patterns = [''cursor:'', ''by cursor'']\<rparr>)]"

section \<open>Pull requests and the primary creator\<close>

text \<open>
  The \<open>pr_info\<close> dict built by \<open>get_ai_pr_watcher_prs\<close>. Its \<open>body\<close> is
  \<open>pr.get('body', '')\<close>: the forge sends the key with the JSON value \<open>null\<close> for a pull
  request without a description, and then the entry is Python's \<open>None\<close>, here
  \<^term>\<open>None :: string option\<close>.
\<close>

record pr_data =
  pr_number :: int
  title :: string
  url :: string
  repo_owner :: string
  repo_name :: string
  detection_query :: string
  state :: string
  created_at :: string
  updated_at :: string
  author :: string
  body :: "string option"

record verdict =
  primary_creator :: string
  confidence :: string
  evidence :: string

text \<open>The loop over \<open>self.creator_patterns.items()\<close> that returns at the first tool whose
  lowercased bot accounts contain the lowercased author.\<close>

fun check_bot_accounts :: "string \<Rightarrow> (string \<times> creator_rule) list \<Rightarrow> string option" where
  "check_bot_accounts author' [] = None"
| "check_bot_accounts author' ((tool_name, patterns) # rest) =
     (if author' \<in> set (map lower (bot_accounts patterns)) then Some tool_name
      else check_bot_accounts author' rest)"

definition identify_primary_creator :: "pr_data \<Rightarrow> verdict" where
  "identify_primary_creator pr =
     (let author' = lower (author pr); query = detection_query pr
      in case check_bot_accounts author' creator_patterns of
           Some tool_name \<Rightarrow>
             \<lparr>primary_creator = tool_name, confidence = ''high'',
              evidence = ''Bot account: '' @ author pr\<rparr>
         | None \<Rightarrow>
             if py_in ''head:copilot/'' query then
               \<lparr>primary_creator = ''github_copilot'', confidence = ''medium'',
                evidence = ''Branch pattern: copilot/''\<rparr>
             else if py_in ''head:codex/'' query then
               \<lparr>primary_creator = ''codex'', confidence = ''medium'',
                evidence = ''Branch pattern: codex/''\<rparr>
             else if py_in ''head:cursor/'' query then
               \<lparr>primary_creator = ''cursor'', confidence = ''low'',
                evidence = ''Branch pattern: cursor/ (cursor is primarily an IDE)''\<rparr>
             else
               \<lparr>primary_creator = ''unknown'', confidence = ''low'',
                evidence = ''Author: '' @ author pr @ '', Query: '' @ query\<rparr>)"

section \<open>Evidence maps\<close>

text \<open>
  One evidence dict: the keys \<open>location\<close>, \<open>pattern\<close> and \<open>context\<close> that every source
  writes, and the further keys of the source (\<open>author\<close> and \<open>date\<close>, \<open>author\<close> and
  \<open>file\<close>, \<open>commit_sha\<close> and \<open>author\<close>) as key/value pairs.
\<close>

record evidence_item =
  ev_location :: string
  ev_pattern :: string
  ev_meta :: "(string \<times> string) list"
  ev_context :: string

text \<open>The dict \<open>tool_name -> [evidence]\<close>, in insertion order.\<close>

type_synonym evidence_map = "(string \<times> evidence_item list) list"

text \<open>
  \<open>if tool_name not in d: d[tool_name] = []\<close> followed by \<open>d[tool_name].append(e)\<close> or
  \<open>d[tool_name].extend(es)\<close>: a new key goes to the end, an old key keeps its place.
\<close>

fun add_evidence :: "evidence_map \<Rightarrow> string \<Rightarrow> evidence_item list \<Rightarrow> evidence_map" where
  "add_evidence [] tool_name es = [(tool_name, es)]"
| "add_evidence ((k, xs) # d) tool_name es =
     (if k = tool_name then (k, xs @ es) # d else (k, xs) # add_evidence d tool_name es)"

text \<open>\<open>d[tool_name]\<close> for a key that may be absent.\<close>

fun lookup :: "('k \<times> 'v) list \<Rightarrow> 'k \<Rightarrow> 'v option" where
  "lookup [] k = None"
| "lookup ((k', v) # d) k = (if k' = k then Some v else lookup d k)"

text \<open>
  The two nested loops that every source runs over one lowercased text:
  \<open>for tool_name, patterns in self.ai_tool_patterns.items(): for pattern in patterns:
  if pattern in text: ...append({...})\<close>. The argument \<open>mk\<close> builds the evidence dict of the
  source from the pattern and its context.
\<close>

fun scan_patterns ::
  "(string \<Rightarrow> string \<Rightarrow> evidence_item) \<Rightarrow> string \<Rightarrow> string \<Rightarrow> string list \<Rightarrow>
   evidence_map \<Rightarrow> evidence_map" where
  "scan_patterns mk text' tool_name [] found = found"
| "scan_patterns mk text' tool_name (pattern # patterns) found =
     scan_patterns mk text' tool_name patterns
       (if py_in pattern text'
        then add_evidence found tool_name [mk pattern (extract_context text' pattern 80)]
        else found)"

fun scan_tools ::
  "(string \<Rightarrow> string \<Rightarrow> evidence_item) \<Rightarrow> string \<Rightarrow> (string \<times> string list) list \<Rightarrow>
   evidence_map \<Rightarrow> evidence_map" where
  "scan_tools mk text' [] found = found"
| "scan_tools mk text' ((tool_name, patterns) # tools) found =
     scan_tools mk text' tools (scan_patterns mk text' tool_name patterns found)"

definition scan_text ::
  "(string \<Rightarrow> string \<Rightarrow> evidence_item) \<Rightarrow> string \<Rightarrow> evidence_map \<Rightarrow> evidence_map" where
  "scan_text mk text' found = scan_tools mk text' ai_tool_patterns found"

section \<open>The fetched sources\<close>

text \<open>
  The three fetched sources replace the network by what it returned. A request either
  raises (also when \<open>response.json()\<close> raises on a 200 answer), or gives a status code and
  the decoded list, which the code reads only when the status is 200.
\<close>

datatype 'c response = RequestRaised | Response nat "'c list"

text \<open>
  A JSON field read with \<open>.get(key, '')\<close> and then lowercased: the key is absent (the
  default \<open>''\<close> is used), it holds \<open>null\<close> (\<open>.lower()\<close> raises AttributeError), or it holds
  a string. A field read with \<open>[key]\<close> is an option: \<open>None\<close> when the lookup raises.
\<close>

datatype jtext = JMissing | JNull | JStr string

fun get_lower :: "jtext \<Rightarrow> string option" where
  "get_lower JMissing = Some (lower [])"
| "get_lower JNull = None"
| "get_lower (JStr s) = Some (lower s)"

record issue_comment =
  ic_body :: jtext
  ic_login :: "string option"
  ic_created_at :: "string option"

record review_comment =
  rc_body :: jtext
  rc_login :: "string option"
  rc_path :: "string option"

record commit_entry =
  cm_message :: "string option"
  cm_sha :: "string option"
  cm_author_name :: "string option"

text \<open>
  The \<open>for\<close> loop of a fetched source runs inside \<open>try\<close>: an item that raises ends the
  loop, and the function returns the dict as it stands, with the evidence of the items
  before it. \<open>None\<close> from the body \<open>f\<close> is the raise.
\<close>

fun scan_each ::
  "('c \<Rightarrow> evidence_map \<Rightarrow> evidence_map option) \<Rightarrow> 'c list \<Rightarrow> evidence_map \<Rightarrow> evidence_map" where
  "scan_each f [] ai_evidence = ai_evidence"
| "scan_each f (c # cs) ai_evidence =
     (case f c ai_evidence of None \<Rightarrow> ai_evidence | Some e \<Rightarrow> scan_each f cs e)"

definition scan_issue_comment :: "issue_comment \<Rightarrow> evidence_map \<Rightarrow> evidence_map option" where
  "scan_issue_comment comment ai_evidence =
     (case get_lower (ic_body comment) of None \<Rightarrow> None
      | Some comment_body \<Rightarrow>
     (case ic_login comment of None \<Rightarrow> None
      | Some comment_author \<Rightarrow>
     (case ic_created_at comment of None \<Rightarrow> None
      | Some comment_date \<Rightarrow>
          Some (scan_text
            (\<lambda>p c. \<lparr>ev_location = ''PR comment'', ev_pattern = p,
                    ev_meta = [(''author'', comment_author), (''date'', comment_date)],
                    ev_context = c\<rparr>)
            comment_body ai_evidence))))"

definition scan_pr_comments :: "issue_comment response \<Rightarrow> evidence_map" where
  "scan_pr_comments r =
     (case r of
        RequestRaised \<Rightarrow> []
      | Response status_code comments \<Rightarrow>
          if status_code = 200 then scan_each scan_issue_comment comments [] else [])"

definition scan_one_review_comment :: "review_comment \<Rightarrow> evidence_map \<Rightarrow> evidence_map option" where
  "scan_one_review_comment comment ai_evidence =
     (case get_lower (rc_body comment) of None \<Rightarrow> None
      | Some comment_body \<Rightarrow>
     (case rc_login comment of None \<Rightarrow> None
      | Some comment_author \<Rightarrow>
          (let file_path = (case rc_path comment of None \<Rightarrow> ''Unknown'' | Some p \<Rightarrow> p)
           in Some (scan_text
                (\<lambda>p c. \<lparr>ev_location = ''Code review comment'', ev_pattern = p,
                        ev_meta = [(''author'', comment_author), (''file'', file_path)],
                        ev_context = c\<rparr>)
                comment_body ai_evidence))))"

definition scan_review_comments :: "review_comment response \<Rightarrow> evidence_map" where
  "scan_review_comments r =
     (case r of
        RequestRaised \<Rightarrow> []
      | Response status_code review_comments \<Rightarrow>
          if status_code = 200 then scan_each scan_one_review_comment review_comments [] else [])"

definition scan_one_commit :: "commit_entry \<Rightarrow> evidence_map \<Rightarrow> evidence_map option" where
  "scan_one_commit commit ai_evidence =
     (case cm_message commit of None \<Rightarrow> None
      | Some message \<Rightarrow>
     (case cm_sha commit of None \<Rightarrow> None
      | Some sha \<Rightarrow>
     (case cm_author_name commit of None \<Rightarrow> None
      | Some commit_author \<Rightarrow>
          Some (scan_text
            (\<lambda>p c. \<lparr>ev_location = ''Commit message'', ev_pattern = p,
                    ev_meta = [(''commit_sha'', take 8 sha), (''author'', commit_author)],
                    ev_context = c\<rparr>)
            (lower message) ai_evidence))))"

definition scan_commit_messages :: "commit_entry response \<Rightarrow> evidence_map" where
  "scan_commit_messages r =
     (case r of
        RequestRaised \<Rightarrow> []
      | Response status_code commits \<Rightarrow>
          if status_code = 200 then scan_each scan_one_commit commits [] else [])"

section \<open>The scan of one pull request\<close>

datatype py_error = TypeError | ZeroDivisionError

text \<open>\<open>for tool_name, evidence_list in source.items(): ...extend(evidence_list)\<close>.\<close>

fun merge_evidence :: "evidence_map \<Rightarrow> evidence_map \<Rightarrow> evidence_map" where
  "merge_evidence found [] = found"
| "merge_evidence found ((tool_name, evidence_list) # rest) =
     merge_evidence (add_evidence found tool_name evidence_list) rest"

definition description_evidence :: "string \<Rightarrow> string \<Rightarrow> evidence_item" where
  "description_evidence p c =
     \<lparr>ev_location = ''PR description'', ev_pattern = p, ev_meta = [], ev_context = c\<rparr>"

text \<open>
  \<open>scan_pr_for_ai_tools\<close>. The first statement that can raise is
  \<open>pr_data['title'] + ' ' + pr_data.get('body', '')\<close>: with the body \<open>None\<close> it is a
  TypeError, and no \<open>try\<close> encloses it. The three fetched sources are given by their
  responses.
\<close>

definition scan_pr_for_ai_tools ::
  "pr_data \<Rightarrow> issue_comment response \<Rightarrow> review_comment response \<Rightarrow> commit_entry response \<Rightarrow>
   py_error + evidence_map" where
  "scan_pr_for_ai_tools pr comments reviews commits =
     (case body pr of
        None \<Rightarrow> Inl TypeError
      | Some b \<Rightarrow>
          (let pr_text = lower (title pr @ '' '' @ b);
               found0 = scan_text description_evidence pr_text [];
               found1 = merge_evidence found0 (scan_pr_comments comments);
               found2 = merge_evidence found1 (scan_review_comments reviews);
               found3 = merge_evidence found2 (scan_commit_messages commits)
           in Inr found3))"

section \<open>The analysis of one pull request\<close>

record pr_info =
  info_url :: string
  info_repo :: string
  info_pr_number :: int
  info_title :: string
  info_author :: string
  info_state :: string

text \<open>The analysis dict; its key \<open>primary_creator\<close> holds the verdict and is the field
  \<open>creator_verdict\<close> here.\<close>

record analysis =
  an_pr_info :: pr_info
  creator_verdict :: verdict
  ai_tools_detected :: evidence_map
  ai_tool_count :: nat
  ai_tool_names :: "string list"
  is_multi_ai :: bool

text \<open>The record that \<open>analyze_pr_ai_ecosystem\<close> compiles from the verdict and the
  evidence map.\<close>

definition compile_analysis :: "pr_data \<Rightarrow> verdict \<Rightarrow> evidence_map \<Rightarrow> analysis" where
  "compile_analysis pr creator ai_tools_found =
     \<lparr>an_pr_info =
        \<lparr>info_url = url pr, info_repo = repo_owner pr @ ''/'' @ repo_name pr,
         info_pr_number = pr_number pr, info_title = title pr,
         info_author = author pr, info_state = state pr\<rparr>,
      creator_verdict = creator,
      ai_tools_detected = ai_tools_found,
      ai_tool_count = length ai_tools_found,
      ai_tool_names = map fst ai_tools_found,
      is_multi_ai = (length ai_tools_found > 1)\<rparr>"

definition analyze_pr_ai_ecosystem ::
  "pr_data \<Rightarrow> issue_comment response \<Rightarrow> review_comment response \<Rightarrow> commit_entry response \<Rightarrow>
   py_error + analysis" where
  "analyze_pr_ai_ecosystem pr comments reviews commits =
     (let creator = identify_primary_creator pr
      in case scan_pr_for_ai_tools pr comments reviews commits of
           Inl e \<Rightarrow> Inl e
         | Inr ai_tools_found \<Rightarrow> Inr (compile_analysis pr creator ai_tools_found))"

section \<open>The ecosystem report\<close>

text \<open>\<open>d[k] = d.get(k, 0) + 1\<close> on a dict in insertion order.\<close>

fun bump :: "('k \<times> nat) list \<Rightarrow> 'k \<Rightarrow> ('k \<times> nat) list" where
  "bump [] k = [(k, 1)]"
| "bump ((k', n) # d) k = (if k' = k then (k', n + 1) # d else (k', n) # bump d k)"

definition count_keys :: "'k list \<Rightarrow> ('k \<times> nat) list" where
  "count_keys ks = foldl bump [] ks"

text \<open>\<open>max(items, key=lambda x: x[1])\<close> on a non-empty sequence: the running best is
  replaced only by a strictly greater key, so the first of the greatest items wins.\<close>

fun py_max_by :: "('a \<Rightarrow> nat) \<Rightarrow> 'a \<Rightarrow> 'a list \<Rightarrow> 'a" where
  "py_max_by f best [] = best"
| "py_max_by f best (x # xs) = py_max_by f (if f best < f x then x else best) xs"

definition max_item :: "('k \<times> nat) list \<Rightarrow> ('k \<times> nat) option" where
  "max_item d = (case d of [] \<Rightarrow> None | x # xs \<Rightarrow> Some (py_max_by snd x xs))"

text \<open>\<open>sorted(d.items(), key=lambda x: x[1], reverse=True)\<close>: stable, greatest count first.\<close>

definition sorted_desc :: "('k \<times> nat) list \<Rightarrow> ('k \<times> nat) list" where
  "sorted_desc d = sort_key (\<lambda>x. - int (snd x)) d"

text \<open>
  The values the report prints. Python computes the quotients in floating point and
  prints them rounded to one decimal; the record holds the exact quotients.
\<close>

record report =
  total_prs :: nat
  multi_ai_prs :: nat
  multi_ai_percent :: rat
  creators :: "(string \<times> nat \<times> rat) list"
  tool_frequency :: "(string \<times> nat \<times> rat) list"
  multi_ai_shown :: "analysis list"
  top_multi_creator :: "(string \<times> nat) option"
  combinations :: "(string list \<times> nat) list"
  top_combo :: "(string list \<times> nat) option"
  average_tools_per_pr :: rat

text \<open>
  The block "most common tool combinations": the dict \<open>combinations\<close>, keyed by
  \<open>tuple(sorted(result['ai_tool_names']))\<close> over the results with \<open>is_multi_ai\<close>. Python
  compares strings by code point, which on \<^typ>\<open>string\<close> is the lexicographic order of
  the character codes.
\<close>

definition tool_combinations :: "analysis list \<Rightarrow> (string list \<times> nat) list" where
  "tool_combinations results =
     count_keys (map (\<lambda>r. sort (ai_tool_names r)) (filter is_multi_ai results))"

definition percentage :: "nat \<Rightarrow> nat \<Rightarrow> rat" where
  "percentage count n = of_nat count / of_nat n * 100"

text \<open>
  \<open>_generate_ecosystem_report\<close>. Every division of the function is by \<open>total_prs\<close>, and
  the first one evaluated is \<open>multi_ai_prs/total_prs*100\<close> in the second \<open>print\<close>: with no
  results it raises ZeroDivisionError before anything else is computed.
\<close>

definition generate_ecosystem_report :: "analysis list \<Rightarrow> py_error + report" where
  "generate_ecosystem_report results =
     (let n = length results;
          multi = filter is_multi_ai results
      in if n = 0 then Inl ZeroDivisionError
         else
           (let combos = tool_combinations results
            in Inr \<lparr>total_prs = n,
                 multi_ai_prs = length multi,
                 multi_ai_percent = percentage (length multi) n,
                 creators =
                   map (\<lambda>(c, k). (c, k, percentage k n))
                     (sorted_desc (count_keys (map (\<lambda>r. primary_creator (creator_verdict r)) results))),
                 tool_frequency =
                   map (\<lambda>(t, k). (t, k, percentage k n))
                     (sorted_desc (count_keys (concat (map ai_tool_names results)))),
                 multi_ai_shown = take 5 multi,
                 top_multi_creator =
                   max_item (count_keys (map (\<lambda>r. primary_creator (creator_verdict r)) multi)),
                 combinations = combos,
                 top_combo = max_item combos,
                 average_tools_per_pr =
                   of_nat (sum_list (map ai_tool_count results)) / of_nat n\<rparr>))"

section \<open>The run\<close>

text \<open>
  \<open>run_ecosystem_mapping\<close>, from the list that \<open>get_ai_pr_watcher_prs\<close> returned, each pull
  request with the responses of its three fetches. \<open>Inr None\<close> is the early \<open>return\<close>
  without a value. Writing the results file is not part of the model.
\<close>

type_synonym fetched_pr =
  "pr_data \<times> issue_comment response \<times> review_comment response \<times> commit_entry response"

fun analyze_all :: "fetched_pr list \<Rightarrow> py_error + analysis list" where
  "analyze_all [] = Inr []"
| "analyze_all ((pr, comments, reviews, commits) # rest) =
     (case analyze_pr_ai_ecosystem pr comments reviews commits of
        Inl e \<Rightarrow> Inl e
      | Inr a \<Rightarrow> (case analyze_all rest of Inl e \<Rightarrow> Inl e | Inr as \<Rightarrow> Inr (a # as)))"

definition run_ecosystem_mapping :: "fetched_pr list \<Rightarrow> py_error + (report \<times> analysis list) option" where
  "run_ecosystem_mapping ai_prs =
     (if ai_prs = [] then Inr None
      else case analyze_all ai_prs of
             Inl e \<Rightarrow> Inl e
           | Inr ecosystem_results \<Rightarrow>
               (case generate_ecosystem_report ecosystem_results of
                  Inl e \<Rightarrow> Inl e
                | Inr rep \<Rightarrow> Inr (Some (rep, ecosystem_results))))"

section \<open>Observations on evidence maps\<close>

text \<open>The evidence sequence of a tool, empty for an absent key; the two invariants of a
  dict built by the scans: no key twice (a dict), and no empty evidence list.\<close>

definition evidence_of :: "evidence_map \<Rightarrow> string \<Rightarrow> evidence_item list" where
  "evidence_of d tool_name = (case lookup d tool_name of None \<Rightarrow> [] | Some es \<Rightarrow> es)"

definition no_empty :: "evidence_map \<Rightarrow> bool" where
  "no_empty d = ([] \<notin> set (map snd d))"

definition keys_distinct :: "evidence_map \<Rightarrow> bool" where
  "keys_distinct d = distinct (map fst d)"

text \<open>The number of evidence items under each key, in the order of the keys.\<close>

definition evidence_counts :: "evidence_map \<Rightarrow> (string \<times> nat) list" where
  "evidence_counts d = map (\<lambda>(tool_name, es). (tool_name, length es)) d"

section \<open>Concrete inputs\<close>

text \<open>
  The pull request of the spec's concrete scenario. The scenario names the body, the author
  and the discovery query; the title, which it leaves open, is empty here.
\<close>

definition scenario_pr :: pr_data where
  "scenario_pr =
     \<lparr>pr_number = 7, title = [], url = ''https://github.com/octo/demo/pull/7'',
      repo_owner = ''octo'', repo_name = ''demo'', detection_query = ''is:pr head:copilot/'',
      state = ''open'', created_at = ''2025-01-01T00:00:00Z'',
      updated_at = ''2025-01-02T00:00:00Z'', author = ''github-copilot[bot]'',
      body = Some ''Generated with ChatGPT, reviewed via copilot suggested edits''\<rparr>"

definition scenario_evidence :: evidence_map where
  "scenario_evidence =
     [(''chatgpt'',
         [description_evidence ''chatgpt''
            ''generated with chatgpt, reviewed via copilot suggested edits'',
          description_evidence ''generated with chatgpt''
            ''generated with chatgpt, reviewed via copilot suggested edits'']),
      (''github_copilot'',
         [description_evidence ''copilot''
            ''generated with chatgpt, reviewed via copilot suggested edits'',
          description_evidence ''copilot suggested''
            ''generated with chatgpt, reviewed via copilot suggested edits''])]"

text \<open>One issue comment, one review comment and one commit for that pull request.\<close>

definition sample_comments :: "issue_comment response" where
  "sample_comments =
     Response 200 [\<lparr>ic_body = JStr ''I asked Copilot for this'', ic_login = Some ''alice'',
                    ic_created_at = Some ''2025-01-01T10:00:00Z''\<rparr>]"

definition sample_reviews :: "review_comment response" where
  "sample_reviews =
     Response 200 [\<lparr>rc_body = JStr ''Cursor would format this'', rc_login = Some ''bob'',
                    rc_path = Some ''src/a.py''\<rparr>]"

definition sample_commits :: "commit_entry response" where
  "sample_commits =
     Response 200 [\<lparr>cm_message = Some ''Apply Copilot fix'', cm_sha = Some ''0123456789abcdef'',
                    cm_author_name = Some ''carol''\<rparr>]"

text \<open>What the scan of the scenario's pull request returns with these three sources.\<close>

definition sample_found :: evidence_map where
  "sample_found =
     [(''chatgpt'',
         [description_evidence ''chatgpt''
            ''generated with chatgpt, reviewed via copilot suggested edits'',
          description_evidence ''generated with chatgpt''
            ''generated with chatgpt, reviewed via copilot suggested edits'']),
      (''github_copilot'',
         [description_evidence ''copilot''
            ''generated with chatgpt, reviewed via copilot suggested edits'',
          description_evidence ''copilot suggested''
            ''generated with chatgpt, reviewed via copilot suggested edits'',
          \<lparr>ev_location = ''PR comment'', ev_pattern = ''copilot'',
           ev_meta = [(''author'', ''alice''), (''date'', ''2025-01-01T10:00:00Z'')],
           ev_context = ''i asked copilot for this''\<rparr>,
          \<lparr>ev_location = ''Commit message'', ev_pattern = ''copilot'',
           ev_meta = [(''commit_sha'', ''01234567''), (''author'', ''carol'')],
           ev_context = ''apply copilot fix''\<rparr>]),
      (''cursor'',
         [\<lparr>ev_location = ''Code review comment'', ev_pattern = ''cursor'',
           ev_meta = [(''author'', ''bob''), (''file'', ''src/a.py'')],
           ev_context = ''cursor would format this''\<rparr>])]"

text \<open>A pull request without a description, as the forge's search returns it: the body
  is \<open>null\<close>.\<close>

definition null_body_pr :: pr_data where
  "null_body_pr =
     \<lparr>pr_number = 8, title = ''Bump version'', url = ''https://github.com/octo/demo/pull/8'',
      repo_owner = ''octo'', repo_name = ''demo'', detection_query = ''is:pr head:codex/'',
      state = ''open'', created_at = ''2025-01-03T00:00:00Z'',
      updated_at = ''2025-01-03T00:00:00Z'', author = ''octocat'', body = None\<rparr>"

text \<open>A pull request that names a tool in its title only.\<close>

definition title_only_pr :: pr_data where
  "title_only_pr =
     \<lparr>pr_number = 9, title = ''Refactor parser with Cursor'',
      url = ''https://github.com/octo/demo/pull/9'',
      repo_owner = ''octo'', repo_name = ''demo'', detection_query = ''is:pr head:cursor/'',
      state = ''open'', created_at = ''2025-01-04T00:00:00Z'',
      updated_at = ''2025-01-04T00:00:00Z'', author = ''dave'',
      body = Some ''Splits the tokenizer from the grammar.''\<rparr>"

text \<open>The same pull request without a description: the forge sends the body \<open>null\<close>.\<close>

definition title_only_null_body_pr :: pr_data where
  "title_only_null_body_pr = title_only_pr\<lparr>body := None\<rparr>"

text \<open>A lowercased text of 103 characters in which \<open>copilot\<close> starts at index 44.\<close>

definition long_text :: string where
  "long_text =
     ''this pull request was written entirely with copilot and then reviewed by two maintainers before merging''"

text \<open>The scenario's pull request under a bot login in mixed case, found by the query
  for another tool's branches.\<close>

definition shouting_bot_pr :: pr_data where
  "shouting_bot_pr =
     scenario_pr\<lparr>author := ''GitHub-Copilot[Bot]'', detection_query := ''is:pr head:codex/''\<rparr>"

text \<open>The analyses of the scenario's pull request, without and with its three sources.\<close>

definition scenario_analysis :: analysis where
  "scenario_analysis =
     compile_analysis scenario_pr (identify_primary_creator scenario_pr) scenario_evidence"






text \<open>A lowercased text that names Copilot three times.\<close>

definition repeated_text :: string where
  "repeated_text = ''copilot wrote it, copilot tested it and copilot shipped it''"

section \<open>Observations on the mention catalog\<close>

text \<open>How often a catalog lists a phrase for a tool.\<close>

fun occurrences :: "(string \<times> string list) list \<Rightarrow> string \<Rightarrow> string \<Rightarrow> nat" where
  "occurrences [] tool phrase = 0"
| "occurrences ((tn, ps) # tools) tool phrase =
     (if tn = tool then count_list ps phrase else 0) + occurrences tools tool phrase"

section \<open>Observations on counting dicts\<close>


section \<open>Observations on the rule tables\<close>

text \<open>The registered bot accounts of a rule table, lowercased as the code compares them,
  each with its tool.\<close>

definition registered_bots :: "(string \<times> creator_rule) list \<Rightarrow> (string \<times> string) list" where
  "registered_bots rules =
     concat (map (\<lambda>(tool_name, patterns).
                    map (\<lambda>bot. (lower bot, tool_name)) (bot_accounts patterns)) rules)"

section \<open>Properties of the string operations\<close>

lemma find_None_iff: "py_find t p = None \<longleftrightarrow> \<not> py_in p t"
  by (induction t) auto

lemma find_Some_prefix: "py_find t p = Some i \<Longrightarrow> i \<le> length t \<and> prefix p (drop i t)"
proof (induction t arbitrary: i)
  case Nil
  then show ?case by (simp split: if_splits)
next
  case (Cons c cs)
  then show ?case by (fastforce split: if_splits)
qed

lemma find_Some_least: "py_find t p = Some i \<Longrightarrow> j < i \<Longrightarrow> \<not> prefix p (drop j t)"
proof (induction t arbitrary: i j)
  case Nil
  then show ?case by (simp split: if_splits)
next
  case (Cons c cs)
  show ?case
  proof (cases "prefix p (c # cs)")
    case True
    with Cons.prems show ?thesis by simp
  next
    case False
    with Cons.prems obtain i' where i': "py_find cs p = Some i'" "i = Suc i'"
      by auto
    show ?thesis
    proof (cases j)
      case 0
      with False show ?thesis by simp
    next
      case (Suc j')
      with Cons.prems(2) i' have "j' < i'" by simp
      from Cons.IH [OF i'(1) this] Suc show ?thesis by simp
    qed
  qed
qed

lemma py_in_iff: "py_in p t \<longleftrightarrow> (\<exists>us vs. t = us @ p @ vs)"
proof (induction t)
  case Nil
  then show ?case by simp
next
  case (Cons c cs)
  show ?case
  proof
    assume "py_in p (c # cs)"
    then consider "prefix p (c # cs)" | "py_in p cs" by auto
    then show "\<exists>us vs. c # cs = us @ p @ vs"
    proof cases
      case 1
      then obtain vs where "c # cs = p @ vs" by (auto simp: prefix_def)
      then have "c # cs = [] @ p @ vs" by simp
      then show ?thesis by blast
    next
      case 2
      with Cons.IH obtain us vs where "cs = us @ p @ vs" by blast
      then have "c # cs = (c # us) @ p @ vs" by simp
      then show ?thesis by blast
    qed
  next
    assume "\<exists>us vs. c # cs = us @ p @ vs"
    then obtain us vs where eq: "c # cs = us @ p @ vs" by blast
    show "py_in p (c # cs)"
    proof (cases us)
      case Nil
      with eq have "prefix p (c # cs)" by (simp add: prefix_def)
      then show ?thesis by simp
    next
      case (Cons u us')
      with eq have "cs = us' @ p @ vs" by simp
      with Cons.IH have "py_in p cs" by blast
      then show ?thesis by simp
    qed
  qed
qed

lemma length_strip_le: "length (strip s) \<le> length s"
proof -
  have "length (dropWhile isspace (rev (dropWhile isspace s))) \<le> length (rev (dropWhile isspace s))"
    by (rule length_dropWhile_le)
  also have "\<dots> \<le> length s"
    by (simp add: length_dropWhile_le)
  finally show ?thesis by (simp add: strip_def)
qed

lemma length_slice_le: "length (slice s a b) \<le> b - a"
  by (simp add: slice_def)

section \<open>Properties of evidence maps\<close>

lemma lookup_add_evidence:
  "lookup (add_evidence d k es) t =
     (if t = k then Some ((case lookup d k of None \<Rightarrow> [] | Some xs \<Rightarrow> xs) @ es) else lookup d t)"
  by (induction d k es rule: add_evidence.induct) auto

lemma evidence_of_add:
  "evidence_of (add_evidence d k es) t = (if t = k then evidence_of d k @ es else evidence_of d t)"
  by (simp add: evidence_of_def lookup_add_evidence)

lemma keys_add_evidence: "fst ` set (add_evidence d k es) = insert k (fst ` set d)"
  by (induction d k es rule: add_evidence.induct) auto

lemma distinct_add_evidence: "keys_distinct d \<Longrightarrow> keys_distinct (add_evidence d k es)"
  unfolding keys_distinct_def
proof (induction d k es rule: add_evidence.induct)
  case (1 tool_name es)
  then show ?case by simp
next
  case (2 k xs d tool_name es)
  then show ?case using keys_add_evidence [of d tool_name es] by auto
qed

lemma values_add_evidence: "es \<noteq> [] \<Longrightarrow> no_empty d \<Longrightarrow> no_empty (add_evidence d k es)"
  unfolding no_empty_def
  by (induction d k es rule: add_evidence.induct) auto

lemma lookup_None_iff: "lookup d k = None \<longleftrightarrow> k \<notin> fst ` set d"
  by (induction d) force+

lemma lookup_in_values: "lookup d k = Some v \<Longrightarrow> v \<in> snd ` set d"
  by (induction d) (force split: if_splits)+

lemma key_iff_evidence:
  assumes "no_empty d"
  shows "t \<in> set (map fst d) \<longleftrightarrow> evidence_of d t \<noteq> []"
proof (cases "lookup d t")
  case None
  moreover from None have "t \<notin> fst ` set d" by (simp add: lookup_None_iff)
  ultimately show ?thesis by (simp add: evidence_of_def)
next
  case (Some es)
  from lookup_in_values [OF Some] have "es \<in> set (map snd d)" by simp
  with assms have "es \<noteq> []" unfolding no_empty_def by blast
  moreover from Some have "t \<in> fst ` set d"
    using lookup_None_iff [of d t] by simp
  ultimately show ?thesis using Some by (simp add: evidence_of_def)
qed

lemma distinct_scan_patterns:
  "keys_distinct found \<Longrightarrow> keys_distinct (scan_patterns mk t tn ps found)"
  by (induction ps arbitrary: found) (simp_all add: distinct_add_evidence)

lemma distinct_scan_tools:
  "keys_distinct found \<Longrightarrow> keys_distinct (scan_tools mk t tools found)"
proof (induction tools arbitrary: found)
  case Nil
  then show ?case by simp
next
  case (Cons a tools)
  then show ?case by (cases a) (simp add: distinct_scan_patterns)
qed

lemma values_scan_patterns:
  "no_empty found \<Longrightarrow> no_empty (scan_patterns mk t tn ps found)"
  by (induction ps arbitrary: found) (simp_all add: values_add_evidence)

lemma values_scan_tools:
  "no_empty found \<Longrightarrow> no_empty (scan_tools mk t tools found)"
proof (induction tools arbitrary: found)
  case Nil
  then show ?case by simp
next
  case (Cons a tools)
  then show ?case by (cases a) (simp add: values_scan_patterns)
qed

lemma scan_each_inv:
  assumes step: "\<And>c d e. P d \<Longrightarrow> f c d = Some e \<Longrightarrow> P e"
  shows "P d \<Longrightarrow> P (scan_each f cs d)"
proof (induction cs arbitrary: d)
  case Nil
  then show ?case by simp
next
  case (Cons c cs)
  show ?case
  proof (cases "f c d")
    case None
    with Cons.prems show ?thesis by simp
  next
    case (Some e)
    from step [OF Cons.prems Some] have "P e" .
    from Cons.IH [OF this] Some show ?thesis by simp
  qed
qed

lemma scan_issue_comment_inv:
  assumes "scan_issue_comment c d = Some e"
  shows "keys_distinct d \<Longrightarrow> keys_distinct e"
    and "no_empty d \<Longrightarrow> no_empty e"
  using assms
  by (auto simp: scan_issue_comment_def scan_text_def distinct_scan_tools values_scan_tools
      split: option.splits)

lemma scan_one_review_comment_inv:
  assumes "scan_one_review_comment c d = Some e"
  shows "keys_distinct d \<Longrightarrow> keys_distinct e"
    and "no_empty d \<Longrightarrow> no_empty e"
  using assms
  by (auto simp: scan_one_review_comment_def scan_text_def distinct_scan_tools values_scan_tools
      Let_def split: option.splits)

lemma scan_one_commit_inv:
  assumes "scan_one_commit c d = Some e"
  shows "keys_distinct d \<Longrightarrow> keys_distinct e"
    and "no_empty d \<Longrightarrow> no_empty e"
  using assms
  by (auto simp: scan_one_commit_def scan_text_def distinct_scan_tools values_scan_tools
      split: option.splits)

lemma empty_inv: "keys_distinct []" "no_empty []"
  by (simp_all add: keys_distinct_def no_empty_def)

lemma scan_pr_comments_inv:
  "keys_distinct (scan_pr_comments r)" "no_empty (scan_pr_comments r)"
  by (auto simp: scan_pr_comments_def empty_inv split: response.splits
      intro!: scan_each_inv [where P = keys_distinct] scan_each_inv [where P = no_empty]
      elim: scan_issue_comment_inv)

lemma scan_review_comments_inv:
  "keys_distinct (scan_review_comments r)" "no_empty (scan_review_comments r)"
  by (auto simp: scan_review_comments_def empty_inv split: response.splits
      intro!: scan_each_inv [where P = keys_distinct] scan_each_inv [where P = no_empty]
      elim: scan_one_review_comment_inv)

lemma scan_commit_messages_inv:
  "keys_distinct (scan_commit_messages r)" "no_empty (scan_commit_messages r)"
  by (auto simp: scan_commit_messages_def empty_inv split: response.splits
      intro!: scan_each_inv [where P = keys_distinct] scan_each_inv [where P = no_empty]
      elim: scan_one_commit_inv)

lemma scan_text_inv:
  "keys_distinct (scan_text mk t [])" "no_empty (scan_text mk t [])"
  by (simp_all add: scan_text_def distinct_scan_tools values_scan_tools empty_inv)

lemma evidence_of_merge:
  "keys_distinct src \<Longrightarrow>
   evidence_of (merge_evidence found src) t = evidence_of found t @ evidence_of src t"
proof (induction src arbitrary: found)
  case Nil
  then show ?case by (simp add: evidence_of_def)
next
  case (Cons kv src)
  obtain k es where kv: "kv = (k, es)" by (cases kv)
  from Cons.prems kv have d: "keys_distinct src" and nk: "k \<notin> fst ` set src"
    by (auto simp: keys_distinct_def)
  from nk have none: "lookup src k = None" by (simp add: lookup_None_iff)
  have step: "evidence_of (merge_evidence found (kv # src)) t =
      evidence_of (add_evidence found k es) t @ evidence_of src t"
    using Cons.IH [OF d, of "add_evidence found k es"] kv by simp
  have here: "evidence_of (kv # src) t = (if t = k then es else evidence_of src t)"
    using kv by (simp add: evidence_of_def)
  have gone: "evidence_of src k = []"
    using none by (simp add: evidence_of_def)
  show ?case
    unfolding step here evidence_of_add using gone by simp
qed

lemma distinct_merge:
  "keys_distinct found \<Longrightarrow> keys_distinct (merge_evidence found src)"
proof (induction src arbitrary: found)
  case Nil
  then show ?case by simp
next
  case (Cons kv src)
  then show ?case by (cases kv) (simp add: distinct_add_evidence)
qed

lemma values_merge:
  "no_empty found \<Longrightarrow> no_empty src \<Longrightarrow> no_empty (merge_evidence found src)"
proof (induction src arbitrary: found)
  case Nil
  then show ?case by simp
next
  case (Cons kv src)
  obtain k es where kv: "kv = (k, es)" by (cases kv)
  from Cons.prems(2) kv have "es \<noteq> []" "no_empty src" by (auto simp: no_empty_def)
  with Cons.IH [of "add_evidence found k es"] Cons.prems(1) kv
  show ?case by (simp add: values_add_evidence)
qed

lemma fetch_failure_is_no_evidence:
  "scan_pr_comments RequestRaised = []" "scan_review_comments RequestRaised = []"
  "scan_commit_messages RequestRaised = []"
  "status_code \<noteq> 200 \<Longrightarrow> scan_pr_comments (Response status_code cs) = []"
  "status_code \<noteq> 200 \<Longrightarrow> scan_review_comments (Response status_code rs) = []"
  "status_code \<noteq> 200 \<Longrightarrow> scan_commit_messages (Response status_code ms) = []"
  by (simp_all add: scan_pr_comments_def scan_review_comments_def scan_commit_messages_def)

section \<open>Properties of the creator rules\<close>

lemma registered_bots_distinct: "distinct (map fst (registered_bots creator_patterns))"
  by code_simp

lemma registered_botsI:
  "(tool, rule) \<in> set rules \<Longrightarrow> a \<in> set (map lower (bot_accounts rule)) \<Longrightarrow>
   (a, tool) \<in> set (registered_bots rules)"
  by (force simp: registered_bots_def)

lemma check_bot_accounts_first:
  "(tool, rule) \<in> set rules \<Longrightarrow> a \<in> set (map lower (bot_accounts rule)) \<Longrightarrow>
   \<forall>t' r'. (t', r') \<in> set rules \<longrightarrow> a \<in> set (map lower (bot_accounts r')) \<longrightarrow> t' = tool \<Longrightarrow>
   check_bot_accounts a rules = Some tool"
proof (induction rules)
  case Nil
  then show ?case by simp
next
  case (Cons x rules)
  obtain t r where x: "x = (t, r)" by (cases x)
  show ?case
  proof (cases "a \<in> set (map lower (bot_accounts r))")
    case True
    with Cons.prems(3) x have "t = tool" by auto
    with True x show ?thesis by simp
  next
    case False
    with Cons.prems(1,2) x have in_rest: "(tool, rule) \<in> set rules" by auto
    have "\<forall>t' r'. (t', r') \<in> set rules \<longrightarrow> a \<in> set (map lower (bot_accounts r')) \<longrightarrow> t' = tool"
      using Cons.prems(3) by auto
    with Cons.IH [OF in_rest Cons.prems(2)] have "check_bot_accounts a rules = Some tool" by blast
    with False x show ?thesis by simp
  qed
qed

section \<open>Properties of the context window\<close>

lemma find_Least:
  assumes "py_find t p = Some i"
  shows "(LEAST j. prefix p (drop j t)) = i"
proof (rule Least_equality)
  from find_Some_prefix [OF assms] show "prefix p (drop i t)" by simp
next
  fix y assume "prefix p (drop y t)"
  with find_Some_least [OF assms, of y] show "i \<le> y" by (meson not_le)
qed

section \<open>Properties of the run\<close>

lemma analyze_all_result:
  "analyze_all ps = Inl e \<Longrightarrow> e = TypeError"
  "analyze_all ps = Inr rs \<Longrightarrow> length rs = length ps"
proof (induction ps arbitrary: rs rule: analyze_all.induct)
  case 1
  { case 1 then show ?case by simp }
  { case 2 then show ?case by simp }
next
  case (2 pr comments reviews commits rest)
  { case 1 then show ?case using "2.IH"(1)
      by (auto simp: analyze_pr_ai_ecosystem_def scan_pr_for_ai_tools_def Let_def
          split: sum.splits option.splits) }
  { case 2 then show ?case using "2.IH"(2)
      by (auto split: sum.splits) }
qed

lemma report_nonempty:
  "results \<noteq> [] \<Longrightarrow> \<exists>rep. generate_ecosystem_report results = Inr rep \<and>
      total_prs rep = length results \<and>
      average_tools_per_pr rep =
        of_nat (sum_list (map ai_tool_count results)) / of_nat (length results)"
  by (simp add: generate_ecosystem_report_def Let_def)

section \<open>Properties of the analysis\<close>

lemma scan_pr_keys_distinct:
  "scan_pr_for_ai_tools pr c r m = Inr found \<Longrightarrow> keys_distinct found"
  by (auto simp: scan_pr_for_ai_tools_def Let_def split: option.splits
      intro!: distinct_merge scan_text_inv)

lemma analysis_names_distinct:
  "analyze_pr_ai_ecosystem pr c r m = Inr a \<Longrightarrow> distinct (ai_tool_names a)"
  using scan_pr_keys_distinct [of pr c r m]
  by (auto simp: analyze_pr_ai_ecosystem_def compile_analysis_def keys_distinct_def Let_def
      split: sum.splits)

section \<open>Properties of the report\<close>











section \<open>Properties of the scan of one text\<close>

lemma lower_append: "lower (a @ b) = lower a @ lower b"
  by (simp add: lower_def)

lemma py_in_append: "py_in p t \<Longrightarrow> py_in p (t @ u)"
proof -
  assume "py_in p t"
  then obtain us vs where "t = us @ p @ vs" by (auto simp: py_in_iff)
  then have "t @ u = us @ p @ (vs @ u)" by simp
  then show ?thesis unfolding py_in_iff by blast
qed

lemma extract_context_eq:
  "extract_context t p 80 =
     (if py_in p t
      then strip (slice t ((LEAST i. prefix p (drop i t)) - 40)
                   (min (length t) ((LEAST i. prefix p (drop i t)) + length p + 40)))
      else strip (take 80 t))"
proof (cases "py_find t p")
  case None
  then have "\<not> py_in p t" by (simp add: find_None_iff)
  with None show ?thesis by (simp add: extract_context_def)
next
  case (Some i)
  then have "py_in p t" using find_None_iff [of t p] by simp
  with Some find_Least [OF Some] show ?thesis
    by (simp add: extract_context_def Let_def)
qed

lemma filter_scan_patterns:
  assumes mk: "\<forall>p c. ev_pattern (mk p c) = p"
  shows "filter (\<lambda>e. ev_pattern e = phrase) (evidence_of (scan_patterns mk t tn ps found) tool) =
     filter (\<lambda>e. ev_pattern e = phrase) (evidence_of found tool) @
     (if tool = tn \<and> py_in phrase t
      then replicate (count_list ps phrase) (mk phrase (extract_context t phrase 80)) else [])"
proof (induction ps arbitrary: found)
  case Nil
  then show ?case by simp
next
  case (Cons p ps)
  show ?case
    using mk by (simp add: Cons.IH evidence_of_add replicate_append_same)
qed

lemma filter_scan_tools:
  assumes mk: "\<forall>p c. ev_pattern (mk p c) = p"
  shows "filter (\<lambda>e. ev_pattern e = phrase) (evidence_of (scan_tools mk t tools found) tool) =
     filter (\<lambda>e. ev_pattern e = phrase) (evidence_of found tool) @
     (if py_in phrase t
      then replicate (occurrences tools tool phrase) (mk phrase (extract_context t phrase 80))
      else [])"
proof (induction tools arbitrary: found)
  case Nil
  then show ?case by simp
next
  case (Cons x tools)
  obtain tn ps where x: "x = (tn, ps)" by (cases x)
  show ?case
    unfolding x
    by (simp add: Cons.IH filter_scan_patterns [OF mk] replicate_add)
qed

lemma count_list_distinct:
  "distinct ps \<Longrightarrow> count_list ps x = (if x \<in> set ps then 1 else 0)"
  by (induction ps) auto

lemma occurrences_distinct:
  "distinct (map fst tools) \<Longrightarrow> list_all (\<lambda>(tn, ps). distinct ps) tools \<Longrightarrow>
   occurrences tools tool phrase =
     (if \<exists>ps. (tool, ps) \<in> set tools \<and> phrase \<in> set ps then 1 else 0)"
proof (induction tools)
  case Nil
  then show ?case by simp
next
  case (Cons x tools)
  obtain tn ps where x: "x = (tn, ps)" by (cases x)
  from Cons.prems x have d: "distinct ps" and nk: "tn \<notin> fst ` set tools"
    and IH: "occurrences tools tool phrase =
      (if \<exists>ps. (tool, ps) \<in> set tools \<and> phrase \<in> set ps then 1 else 0)"
    using Cons.IH by auto
  have cnt: "count_list ps phrase = (if phrase \<in> set ps then 1 else 0)"
    using d by (rule count_list_distinct)
  show ?case
  proof (cases "tn = tool")
    case True
    with nk have "\<not> (\<exists>ps. (tool, ps) \<in> set tools \<and> phrase \<in> set ps)" by force
    with True x IH cnt show ?thesis by auto
  next
    case False
    with x IH show ?thesis by auto
  qed
qed

lemma catalog_distinct:
  "distinct (map fst ai_tool_patterns)" "list_all (\<lambda>(tn, ps). distinct ps) ai_tool_patterns"
  by code_simp+

lemma mono_scan_patterns:
  "e \<in> set (evidence_of d tool) \<Longrightarrow> e \<in> set (evidence_of (scan_patterns mk t tn ps d) tool)"
proof (induction ps arbitrary: d)
  case Nil
  then show ?case by simp
next
  case (Cons p ps)
  show ?case
  proof (cases "py_in p t")
    case True
    from Cons.prems
    have "e \<in> set (evidence_of (add_evidence d tn [mk p (extract_context t p 80)]) tool)"
      by (auto simp: evidence_of_add)
    from Cons.IH [OF this] True show ?thesis by simp
  next
    case False
    with Cons.IH [OF Cons.prems] show ?thesis by simp
  qed
qed

lemma mem_scan_patterns:
  "phrase \<in> set ps \<Longrightarrow> py_in phrase t \<Longrightarrow>
   mk phrase (extract_context t phrase 80) \<in> set (evidence_of (scan_patterns mk t tn ps found) tn)"
proof (induction ps arbitrary: found)
  case Nil
  then show ?case by simp
next
  case (Cons p ps)
  show ?case
  proof (cases "p = phrase")
    case True
    have "mk phrase (extract_context t phrase 80)
        \<in> set (evidence_of (add_evidence found tn [mk phrase (extract_context t phrase 80)]) tn)"
      by (simp add: evidence_of_add)
    then have "mk phrase (extract_context t phrase 80)
        \<in> set (evidence_of (scan_patterns mk t tn ps
              (add_evidence found tn [mk phrase (extract_context t phrase 80)])) tn)"
      by (rule mono_scan_patterns)
    with True Cons.prems(2) show ?thesis by simp
  next
    case False
    with Cons.prems have "phrase \<in> set ps" by simp
    from Cons.IH [OF this Cons.prems(2)] show ?thesis by simp
  qed
qed

lemma mono_scan_tools:
  "e \<in> set (evidence_of d tool) \<Longrightarrow> e \<in> set (evidence_of (scan_tools mk t tools d) tool)"
proof (induction tools arbitrary: d)
  case Nil
  then show ?case by simp
next
  case (Cons x tools)
  obtain tn ps where x: "x = (tn, ps)" by (cases x)
  from Cons.prems have "e \<in> set (evidence_of (scan_patterns mk t tn ps d) tool)"
    by (rule mono_scan_patterns)
  from Cons.IH [OF this] x show ?case by simp
qed

lemma mem_scan_tools:
  "(tool, ps) \<in> set tools \<Longrightarrow> phrase \<in> set ps \<Longrightarrow> py_in phrase t \<Longrightarrow>
   mk phrase (extract_context t phrase 80) \<in> set (evidence_of (scan_tools mk t tools found) tool)"
proof (induction tools arbitrary: found)
  case Nil
  then show ?case by simp
next
  case (Cons x tools)
  obtain tn qs where x: "x = (tn, qs)" by (cases x)
  show ?case
  proof (cases "x = (tool, ps)")
    case True
    with x have "tn = tool" "qs = ps" by simp_all
    with Cons.prems have "mk phrase (extract_context t phrase 80)
        \<in> set (evidence_of (scan_patterns mk t tn qs found) tool)"
      by (simp add: mem_scan_patterns)
    then have "mk phrase (extract_context t phrase 80)
        \<in> set (evidence_of (scan_tools mk t tools (scan_patterns mk t tn qs found)) tool)"
      by (rule mono_scan_tools)
    with x show ?thesis by simp
  next
    case False
    with Cons.prems(1) have "(tool, ps) \<in> set tools" by simp
    from Cons.IH [OF this Cons.prems(2,3)] x show ?thesis by simp
  qed
qed

section \<open>The claims\<close>

subsection \<open>C1: a registered bot account decides the creator\<close>

text \<open>
  Claim C1. When the lowercased author login is one of the lowercased bot accounts that
  the creator rules register for a tool, \<open>identify_primary_creator\<close> returns that tool with
  confidence \<open>high\<close> and the bot account as evidence. The discovery query does not occur
  in the statement: the loop over the bot accounts runs, and returns, before any query
  pattern is looked at.
\<close>

theorem bot_account_takes_precedence:
  assumes "(tool, rule) \<in> set creator_patterns"
    and "lower (author pr) \<in> set (map lower (bot_accounts rule))"
  shows "identify_primary_creator pr =
           \<lparr>primary_creator = tool, confidence = ''high'',
            evidence = ''Bot account: '' @ author pr\<rparr>"
proof -
  have "check_bot_accounts (lower (author pr)) creator_patterns = Some tool"
  proof (rule check_bot_accounts_first [OF assms], intro allI impI)
    fix t' r'
    assume "(t', r') \<in> set creator_patterns"
      and "lower (author pr) \<in> set (map lower (bot_accounts r'))"
    then have "(lower (author pr), t') \<in> set (registered_bots creator_patterns)"
      by (rule registered_botsI)
    moreover have "(lower (author pr), tool) \<in> set (registered_bots creator_patterns)"
      using assms by (rule registered_botsI)
    ultimately show "t' = tool"
      using registered_bots_distinct by (rule eq_key_imp_eq_value [rotated])
  qed
  then show ?thesis
    by (simp add: identify_primary_creator_def Let_def)
qed

text \<open>A Copilot bot login in mixed case on a pull request found by the Codex branch query:
  the verdict is Copilot with confidence \<open>high\<close>, not Codex with \<open>medium\<close>.\<close>

theorem bot_account_takes_precedence_witness:
  "(''github_copilot'', snd (creator_patterns ! 2)) \<in> set creator_patterns \<and>
   lower (author shouting_bot_pr) \<in> set (map lower (bot_accounts (snd (creator_patterns ! 2)))) \<and>
   py_in ''head:codex/'' (detection_query shouting_bot_pr) \<and>
   identify_primary_creator shouting_bot_pr =
     \<lparr>primary_creator = ''github_copilot'', confidence = ''high'',
      evidence = ''Bot account: GitHub-Copilot[Bot]''\<rparr>"
proof -
  have h1: "(''github_copilot'', snd (creator_patterns ! 2)) \<in> set creator_patterns"
    by code_simp
  have h2: "lower (author shouting_bot_pr)
      \<in> set (map lower (bot_accounts (snd (creator_patterns ! 2))))"
    by code_simp
  have q: "py_in ''head:codex/'' (detection_query shouting_bot_pr)"
    by code_simp
  have a: "author shouting_bot_pr = ''GitHub-Copilot[Bot]''"
    by (simp add: shouting_bot_pr_def)
  from bot_account_takes_precedence [OF h1 h2] h1 h2 q a show ?thesis by simp
qed

subsection \<open>C2: the sources are concatenated in a fixed order\<close>

text \<open>
  Claim C2 says, for every pull request, that the scan returns the evidence of a tool found
  in several sources as the concatenation of the sources' evidence. On a pull request
  whose body is \<open>None\<close>, with a comment and a commit that both name Copilot, the scan
  raises TypeError while it builds the description text and returns no evidence map: the
  evidence that the comment and the commit would give is never collected.
\<close>

theorem null_body_drops_other_sources:
  "evidence_of (scan_pr_comments sample_comments) ''github_copilot'' \<noteq> [] \<and>
   evidence_of (scan_commit_messages sample_commits) ''github_copilot'' \<noteq> [] \<and>
   body null_body_pr = None \<and>
   scan_pr_for_ai_tools null_body_pr sample_comments sample_reviews sample_commits
     = Inl TypeError"
proof -
  have "evidence_of (scan_pr_comments sample_comments) ''github_copilot'' \<noteq> []"
    by code_simp
  moreover have "evidence_of (scan_commit_messages sample_commits) ''github_copilot'' \<noteq> []"
    by code_simp
  moreover have "body null_body_pr = None"
    by (simp add: null_body_pr_def)
  ultimately show ?thesis
    by (simp add: scan_pr_for_ai_tools_def)
qed

text \<open>
  With a body that is a string the scan does what the claim says: it returns an evidence
  map, and the evidence sequence of every tool in it is the tool's evidence from the
  description, followed by that from the issue comments, that from the review comments and
  that from the commit messages, each as its own scan produced it. Nothing is merged or
  dropped: the result is the plain concatenation.
\<close>

lemma aggregate_concatenates_sources:
  assumes "body pr = Some b"
  shows "\<exists>found. scan_pr_for_ai_tools pr c r m = Inr found \<and>
           (\<forall>tool. evidence_of found tool =
              evidence_of (scan_text description_evidence (lower (title pr @ '' '' @ b)) []) tool @
              evidence_of (scan_pr_comments c) tool @
              evidence_of (scan_review_comments r) tool @
              evidence_of (scan_commit_messages m) tool)"
  using assms
  by (simp add: scan_pr_for_ai_tools_def Let_def evidence_of_merge scan_pr_comments_inv
      scan_review_comments_inv scan_commit_messages_inv)

text \<open>The scenario's pull request with a comment, a review comment and a commit: the
  evidence of \<open>github_copilot\<close> has four items from three sources.\<close>

lemma aggregate_concatenates_sources_example:
  "body scenario_pr = Some ''Generated with ChatGPT, reviewed via copilot suggested edits'' \<and>
   scan_pr_for_ai_tools scenario_pr sample_comments sample_reviews sample_commits = Inr sample_found \<and>
   evidence_of sample_found ''github_copilot'' =
     evidence_of (scan_text description_evidence
        (lower (title scenario_pr @ '' '' @
           ''Generated with ChatGPT, reviewed via copilot suggested edits'')) []) ''github_copilot'' @
     evidence_of (scan_pr_comments sample_comments) ''github_copilot'' @
     evidence_of (scan_review_comments sample_reviews) ''github_copilot'' @
     evidence_of (scan_commit_messages sample_commits) ''github_copilot'' \<and>
   length (evidence_of sample_found ''github_copilot'') = 4"
proof -
  have b: "body scenario_pr = Some ''Generated with ChatGPT, reviewed via copilot suggested edits''"
    by (simp add: scenario_pr_def)
  have run: "scan_pr_for_ai_tools scenario_pr sample_comments sample_reviews sample_commits
      = Inr sample_found"
    by code_simp
  have len: "length (evidence_of sample_found ''github_copilot'') = 4"
    by code_simp
  from aggregate_concatenates_sources [OF b, of sample_comments sample_reviews sample_commits]
    run b len
  show ?thesis by auto
qed

subsection \<open>C3: a body that is not a string\<close>

text \<open>
  Claim C3 says that no source can make the analysis of a pull request raise. On a pull
  request whose body is \<open>None\<close> the code raises: the description text is built by string
  concatenation outside every \<open>try\<close>, so the TypeError leaves \<open>scan_pr_for_ai_tools\<close>,
  \<open>analyze_pr_ai_ecosystem\<close> and the whole run, whatever the three fetches return.
\<close>

theorem null_body_raises:
  "scan_pr_for_ai_tools null_body_pr c r m = Inl TypeError \<and>
   analyze_pr_ai_ecosystem null_body_pr c r m = Inl TypeError \<and>
   run_ecosystem_mapping [(null_body_pr, c, r, m)] = Inl TypeError"
  by (simp add: scan_pr_for_ai_tools_def analyze_pr_ai_ecosystem_def run_ecosystem_mapping_def
      null_body_pr_def)

subsection \<open>C4: the report of no analyses\<close>

text \<open>
  Claim C4 says that the reporter returns a zero report for an empty sequence. Called
  with no analyses, \<open>_generate_ecosystem_report\<close> raises ZeroDivisionError at its first
  percentage.
\<close>

theorem empty_report_counterexample: "generate_ecosystem_report [] = Inl ZeroDivisionError"
  by (simp add: generate_ecosystem_report_def)

text \<open>
  Claim C4, amended. The empty case is guarded by the caller: with no pull requests
  \<open>run_ecosystem_mapping\<close> returns at once, without a report and without a value, and no
  run ends in a ZeroDivisionError. Called with at least one analysis the reporter returns a
  report, whose average is the sum of the tool counts divided by the number of analyses.
\<close>

theorem empty_run_is_guarded:
  "run_ecosystem_mapping [] = Inr None \<and>
   run_ecosystem_mapping ai_prs \<noteq> Inl ZeroDivisionError \<and>
   (results \<noteq> [] \<longrightarrow>
      (\<exists>rep. generate_ecosystem_report results = Inr rep \<and>
         total_prs rep = length results \<and>
         average_tools_per_pr rep =
           of_nat (sum_list (map ai_tool_count results)) / of_nat (length results)))"
proof -
  have "run_ecosystem_mapping ai_prs \<noteq> Inl ZeroDivisionError"
  proof (cases "analyze_all ai_prs")
    case (Inl e)
    with analyze_all_result(1) [OF Inl] show ?thesis
      by (simp add: run_ecosystem_mapping_def)
  next
    case (Inr rs)
    show ?thesis
    proof (cases "ai_prs = []")
      case True
      then show ?thesis by (simp add: run_ecosystem_mapping_def)
    next
      case False
      with analyze_all_result(2) [OF Inr] have "rs \<noteq> []" by auto
      from report_nonempty [OF this] Inr False show ?thesis
        by (auto simp: run_ecosystem_mapping_def)
    qed
  qed
  then show ?thesis
    using report_nonempty [of results] by (simp add: run_ecosystem_mapping_def)
qed

text \<open>The report of the scenario's analysis alone: one pull request, two tools on
  average.\<close>

theorem empty_run_is_guarded_witness:
  "[scenario_analysis] \<noteq> [] \<and>
   (\<exists>rep. generate_ecosystem_report [scenario_analysis] = Inr rep \<and>
      total_prs rep = 1 \<and> average_tools_per_pr rep = 2)"
proof -
  have ne: "[scenario_analysis] \<noteq> []" by simp
  have cnt: "ai_tool_count scenario_analysis = 2"
    by (simp add: scenario_analysis_def compile_analysis_def scenario_evidence_def)
  from empty_run_is_guarded [of "[]" "[scenario_analysis]"] ne cnt
  show ?thesis by simp
qed

subsection \<open>C5: the concrete scenario\<close>

text \<open>
  Claim C5 expects one evidence item for each of \<open>chatgpt\<close> and \<open>github_copilot\<close> from
  the description scan of the scenario. The counts are not one and one.
\<close>

theorem scenario_counts_counterexample:
  "evidence_counts
     (scan_text description_evidence
        (lower (title scenario_pr @ '' '' @
           ''Generated with ChatGPT, reviewed via copilot suggested edits'')) [])
   \<noteq> [(''chatgpt'', 1), (''github_copilot'', 1)]"
  by code_simp

text \<open>
  Claim C5, amended. In the scenario the verdict is \<open>github_copilot\<close> with confidence
  \<open>high\<close> and the bot account as evidence, and the description scan finds exactly the tools
  \<open>chatgpt\<close> and \<open>github_copilot\<close> with two evidence items each: the body holds the
  phrases \<open>chatgpt\<close> and \<open>generated with chatgpt\<close>, \<open>copilot\<close> and \<open>copilot suggested\<close>,
  and every phrase of the catalog that occurs gives its own item.
\<close>

theorem scenario_verdict_and_evidence:
  "identify_primary_creator scenario_pr =
     \<lparr>primary_creator = ''github_copilot'', confidence = ''high'',
      evidence = ''Bot account: github-copilot[bot]''\<rparr> \<and>
   scan_text description_evidence
     (lower (title scenario_pr @ '' '' @
        ''Generated with ChatGPT, reviewed via copilot suggested edits'')) [] = scenario_evidence \<and>
   scan_pr_for_ai_tools scenario_pr (Response 200 []) (Response 200 []) (Response 200 [])
     = Inr scenario_evidence \<and>
   evidence_counts scenario_evidence = [(''chatgpt'', 2), (''github_copilot'', 2)]"
  by code_simp

subsection \<open>C6: the context snippet\<close>

text \<open>
  Claim C6 bounds the snippet by 80 characters. In a text with 44 characters before
  \<open>copilot\<close> and 52 after it, the snippet of \<open>copilot\<close> has 86 characters.
\<close>

theorem context_longer_than_80_counterexample:
  "py_in ''copilot'' long_text \<and> \<not> length (extract_context long_text ''copilot'' 80) \<le> 80"
  by code_simp

text \<open>
  Claim C6, amended. The snippet has at most the length of the phrase plus 80 characters.
  When the phrase occurs, the snippet is the text from 40 characters before the first
  occurrence (or from the start of the text) to 40 characters after the end of that
  occurrence (or to the end of the text), with leading and trailing whitespace removed;
  when it does not occur, the snippet is the first 80 characters of the text, with leading
  and trailing whitespace removed.
\<close>

theorem extract_context_window:
  "length (extract_context t p 80) \<le> length p + 80 \<and>
   extract_context t p 80 =
     (if py_in p t
      then strip (slice t ((LEAST i. prefix p (drop i t)) - 40)
                   (min (length t) ((LEAST i. prefix p (drop i t)) + length p + 40)))
      else strip (take 80 t))"
proof (cases "py_find t p")
  case None
  then have "\<not> py_in p t" by (simp add: find_None_iff)
  moreover have "length (strip (take 80 t)) \<le> 80"
    using length_strip_le [of "take 80 t"] by simp
  ultimately show ?thesis using None by (simp add: extract_context_def)
next
  case (Some i)
  then have "py_in p t" using find_None_iff [of t p] by simp
  moreover have "length (strip (slice t (i - 40) (min (length t) (i + length p + 40))))
      \<le> length p + 80"
    using length_strip_le [of "slice t (i - 40) (min (length t) (i + length p + 40))"]
      length_slice_le [of t "i - 40" "min (length t) (i + length p + 40)"]
    by linarith
  ultimately show ?thesis using Some find_Least [OF Some]
    by (simp add: extract_context_def Let_def)
qed

subsection \<open>C7: the most common tool combination\<close>



subsection \<open>C8: no key with an empty evidence list\<close>

text \<open>
  Claim C8. The evidence map of a scanned text, of each of the three fetched sources and of
  the whole pull request has no key with an empty evidence list; so in the map of a pull
  request a tool is a key exactly when it has at least one evidence item.
\<close>

theorem evidence_map_never_empty_entry:
  "[] \<notin> set (map snd (scan_text mk t [])) \<and>
   [] \<notin> set (map snd (scan_pr_comments c)) \<and>
   [] \<notin> set (map snd (scan_review_comments r)) \<and>
   [] \<notin> set (map snd (scan_commit_messages m)) \<and>
   (scan_pr_for_ai_tools pr c r m = Inr found \<longrightarrow>
      [] \<notin> set (map snd found) \<and>
      (tool \<in> set (map fst found) \<longleftrightarrow> evidence_of found tool \<noteq> []))"
proof -
  have "scan_pr_for_ai_tools pr c r m = Inr found \<Longrightarrow> no_empty found"
    by (auto simp: scan_pr_for_ai_tools_def Let_def split: option.splits
        intro!: values_merge scan_text_inv scan_pr_comments_inv scan_review_comments_inv
          scan_commit_messages_inv)
  moreover have "no_empty found \<Longrightarrow> tool \<in> set (map fst found) \<longleftrightarrow> evidence_of found tool \<noteq> []"
    by (rule key_iff_evidence)
  ultimately show ?thesis
    using scan_text_inv(2) [of mk t] scan_pr_comments_inv(2) [of c]
      scan_review_comments_inv(2) [of r] scan_commit_messages_inv(2) [of m]
    unfolding no_empty_def by blast
qed

text \<open>The scan of the scenario with its three sources: \<open>cursor\<close> is a key, with the
  evidence of the review comment.\<close>

theorem evidence_map_never_empty_entry_witness:
  "scan_pr_for_ai_tools scenario_pr sample_comments sample_reviews sample_commits = Inr sample_found \<and>
   [] \<notin> set (map snd sample_found) \<and>
   ''cursor'' \<in> set (map fst sample_found) \<and>
   evidence_of sample_found ''cursor'' \<noteq> []"
proof -
  have run: "scan_pr_for_ai_tools scenario_pr sample_comments sample_reviews sample_commits
      = Inr sample_found"
    by code_simp
  have key: "''cursor'' \<in> set (map fst sample_found)"
    by code_simp
  from evidence_map_never_empty_entry
    [where pr = scenario_pr and c = sample_comments and r = sample_reviews
       and m = sample_commits and found = sample_found and tool = "''cursor''"]
    run key
  show ?thesis by blast
qed

subsection \<open>C9: a phrase in the title\<close>

text \<open>
  Claim C9 says that a phrase of the catalog that occurs in the title only still gives an
  evidence item with the location \<open>PR description\<close>. On a pull request that names Cursor
  in its title and has no description, so that its body is \<open>None\<close>, the scan raises
  TypeError while it joins the title and the body, whatever the three fetches return, and
  gives no evidence at all.
\<close>

theorem title_phrase_lost_with_null_body:
  "py_in ''cursor'' (lower (title title_only_null_body_pr)) \<and>
   body title_only_null_body_pr = None \<and>
   scan_pr_for_ai_tools title_only_null_body_pr c r m = Inl TypeError \<and>
   analyze_pr_ai_ecosystem title_only_null_body_pr c r m = Inl TypeError"
proof -
  have "py_in ''cursor'' (lower (title title_only_null_body_pr))"
    by code_simp
  moreover have "body title_only_null_body_pr = None"
    by (simp add: title_only_null_body_pr_def)
  ultimately show ?thesis
    by (simp add: scan_pr_for_ai_tools_def analyze_pr_ai_ecosystem_def)
qed

text \<open>
  With a body that is a string the scan does what the claim says. It reads the lowercased
  title, a space and the lowercased body, so every phrase of the catalog that occurs in
  the lowercased title gives an evidence item of its tool with the location
  \<open>PR description\<close>, whether or not the body contains the phrase, and the item is still
  there after the three fetched sources were merged in.
\<close>

lemma title_phrase_is_description_evidence:
  assumes "body pr = Some b"
    and "(tool, phrases) \<in> set ai_tool_patterns" and "phrase \<in> set phrases"
    and "py_in phrase (lower (title pr))"
  shows "\<exists>found. scan_pr_for_ai_tools pr c r m = Inr found \<and>
           description_evidence phrase (extract_context (lower (title pr @ '' '' @ b)) phrase 80)
             \<in> set (evidence_of found tool) \<and>
           ev_location (description_evidence phrase
             (extract_context (lower (title pr @ '' '' @ b)) phrase 80)) = ''PR description''"
proof -
  let ?t = "lower (title pr @ '' '' @ b)"
  from assms(4) have "py_in phrase ?t"
    by (simp add: lower_append py_in_append)
  with assms(2,3) have "description_evidence phrase (extract_context ?t phrase 80)
      \<in> set (evidence_of (scan_text description_evidence ?t []) tool)"
    unfolding scan_text_def by (rule mem_scan_tools)
  then show ?thesis
    using assms(1)
    by (simp add: scan_pr_for_ai_tools_def Let_def evidence_of_merge scan_pr_comments_inv
        scan_review_comments_inv scan_commit_messages_inv description_evidence_def)
qed

text \<open>A pull request that names Cursor in its title and nowhere in its body.\<close>

lemma title_phrase_is_description_evidence_example:
  "body title_only_pr = Some ''Splits the tokenizer from the grammar.'' \<and>
   (''cursor'', snd (ai_tool_patterns ! 4)) \<in> set ai_tool_patterns \<and>
   ''cursor'' \<in> set (snd (ai_tool_patterns ! 4)) \<and>
   py_in ''cursor'' (lower (title title_only_pr)) \<and>
   \<not> py_in ''cursor'' (lower ''Splits the tokenizer from the grammar.'') \<and>
   (\<exists>found. scan_pr_for_ai_tools title_only_pr sample_comments sample_reviews sample_commits
        = Inr found \<and>
      description_evidence ''cursor''
        ''refactor parser with cursor splits the tokenizer from the grammar.''
        \<in> set (evidence_of found ''cursor''))"
proof -
  have b: "body title_only_pr = Some ''Splits the tokenizer from the grammar.''"
    by (simp add: title_only_pr_def)
  have k: "(''cursor'', snd (ai_tool_patterns ! 4)) \<in> set ai_tool_patterns"
    by code_simp
  have p: "''cursor'' \<in> set (snd (ai_tool_patterns ! 4))"
    by code_simp
  have t: "py_in ''cursor'' (lower (title title_only_pr))"
    by code_simp
  have nb: "\<not> py_in ''cursor'' (lower ''Splits the tokenizer from the grammar.'')"
    by code_simp
  have ctx: "extract_context
      (lower (title title_only_pr @ '' '' @ ''Splits the tokenizer from the grammar.''))
      ''cursor'' 80 = ''refactor parser with cursor splits the tokenizer from the grammar.''"
    by code_simp
  from title_phrase_is_description_evidence
    [OF b k p t, of sample_comments sample_reviews sample_commits]
  show ?thesis unfolding ctx using b k p t nb by blast
qed

subsection \<open>C10: one evidence item for a phrase in one text\<close>

text \<open>
  Claim C10. In the scan of one text, with an evidence builder that records the phrase as
  the sources' builders do, the evidence of a tool holds exactly one item for a phrase that
  the catalog lists for the tool and that occurs in the text, however often it occurs, and
  none otherwise. The context of the item is the window around the first occurrence of the
  phrase.
\<close>

theorem one_evidence_per_phrase:
  assumes "\<forall>p c. ev_pattern (mk p c) = p"
  shows "filter (\<lambda>e. ev_pattern e = phrase) (evidence_of (scan_text mk t []) tool) =
     (if (\<exists>ps. (tool, ps) \<in> set ai_tool_patterns \<and> phrase \<in> set ps) \<and> py_in phrase t
      then [mk phrase
              (strip (slice t ((LEAST i. prefix phrase (drop i t)) - 40)
                 (min (length t) ((LEAST i. prefix phrase (drop i t)) + length phrase + 40))))]
      else [])"
proof -
  have "occurrences ai_tool_patterns tool phrase =
      (if \<exists>ps. (tool, ps) \<in> set ai_tool_patterns \<and> phrase \<in> set ps then 1 else 0)"
    using catalog_distinct by (rule occurrences_distinct)
  then show ?thesis
    unfolding scan_text_def filter_scan_tools [OF assms]
    by (simp add: evidence_of_def extract_context_eq)
qed

text \<open>A text with three occurrences of \<open>copilot\<close>: one item, with the context of the
  first occurrence.\<close>

theorem one_evidence_per_phrase_witness:
  "(\<forall>p c. ev_pattern (description_evidence p c) = p) \<and>
   filter (\<lambda>e. ev_pattern e = ''copilot'')
     (evidence_of (scan_text description_evidence repeated_text []) ''github_copilot'')
   = [description_evidence ''copilot'' ''copilot wrote it, copilot tested it and copilot'']"
proof -
  have mk: "\<forall>p c. ev_pattern (description_evidence p c) = p"
    by (simp add: description_evidence_def)
  have cond: "(\<exists>ps. (''github_copilot'', ps) \<in> set ai_tool_patterns \<and> ''copilot'' \<in> set ps) \<and>
      py_in ''copilot'' repeated_text"
  proof
    have "(''github_copilot'', snd (ai_tool_patterns ! 1)) \<in> set ai_tool_patterns \<and>
        ''copilot'' \<in> set (snd (ai_tool_patterns ! 1))"
      by code_simp
    then show "\<exists>ps. (''github_copilot'', ps) \<in> set ai_tool_patterns \<and> ''copilot'' \<in> set ps"
      by blast
    show "py_in ''copilot'' repeated_text" by code_simp
  qed
  have ctx: "extract_context repeated_text ''copilot'' 80
      = ''copilot wrote it, copilot tested it and copilot''"
    by code_simp
  from one_evidence_per_phrase [OF mk, of "''copilot''" repeated_text "''github_copilot''"]
    cond ctx mk
  show ?thesis by (simp add: extract_context_eq)
qed

end
